theory Spec2Isabelle
  imports Main "HOL-Library.AList" "HOL-Library.Sublist"
begin

section \<open>Data model\<close>

text \<open>
  Campus Share keeps its data in MongoDB collections; users, files, folders and clipboard
  items matter for storage accounting and expiry. Object ids are natural numbers, dates are
  integer milliseconds (what \<^verbatim>\<open>Date.getTime()\<close> returns), byte sizes reported by the
  upload middleware are natural numbers, and the \<^verbatim>\<open>storageUsed\<close> counter is an integer
  because \<^verbatim>\<open>$inc\<close> can take it below zero. JavaScript numbers are doubles; all values
  here are taken to stay below \<open>2^53\<close>, where integer arithmetic on doubles is exact.
\<close>

type_synonym object_id = nat
type_synonym timestamp = int

record user =
  storageUsed :: int
  storageLimit :: int
  isBanned :: bool

record file_doc =
  file_id :: object_id
  userId :: object_id
  originalName :: string
  fileName :: string
  filePath :: string
  fileSize :: nat
  mimeType :: string
  extension :: string
  folderId :: "object_id option"
  expiresAt :: timestamp

record folder =
  folder_id :: object_id
  folder_userId :: object_id
  folder_parentId :: "object_id option"

record clip =
  clip_id :: object_id
  clip_userId :: object_id
  content :: string
  clip_expiresAt :: timestamp

text \<open>
  The users collection is a dictionary keyed by \<^verbatim>\<open>_id\<close>. The files, folders and clips
  collections are lists in collection order, since the order in which \<^verbatim>\<open>find\<close> hands
  documents back matters for the sweeper. The database keeps the \<^verbatim>\<open>_id\<close> of a collection
  unique; a statement that depends on it assumes \<open>distinct (map file_id (files st))\<close>.
  The disk is the set of payload paths present. \<open>nextId\<close> stands for the generator of
  fresh ObjectIds.
\<close>

record state =
  users :: "object_id \<rightharpoonup> user"
  files :: "file_doc list"
  folders :: "folder list"
  clips :: "clip list"
  disk :: "string set"
  nextId :: object_id

datatype error = ValidationError | DuplicateKeyError | DocumentNotFoundError | ENOENT

subsection \<open>Constants (config/constants.js)\<close>

text \<open>
  \<^verbatim>\<open>EXPIRY_DAYS: parseInt(process.env.FILE_EXPIRY_DAYS) || 7\<close>. The argument is the parsed
  environment variable, \<open>None\<close> when it is unset or not a number; \<open>0\<close> is falsy too.
\<close>

definition EXPIRY_DAYS :: "int option \<Rightarrow> int" where
  "EXPIRY_DAYS env = (case env of None \<Rightarrow> 7 | Some n \<Rightarrow> if n = 0 then 7 else n)"

definition DAY_MS :: int where
  "DAY_MS = 24 * 60 * 60 * 1000"

text \<open>
  A JavaScript \<^verbatim>\<open>Date\<close> holds a time value of at most 8.64e15 milliseconds on either side
  of the epoch; \<^verbatim>\<open>new Date(t)\<close> beyond that is an Invalid Date, which the schema's date
  type refuses to cast.
\<close>

definition MAX_DATE :: int where
  "MAX_DATE = 8640000000000000"

definition valid_date :: "timestamp \<Rightarrow> bool" where
  "valid_date t = (- MAX_DATE \<le> t \<and> t \<le> MAX_DATE)"

definition BAD_REQUEST :: nat where "BAD_REQUEST = 400"
definition UNAUTHORIZED_STATUS :: nat where "UNAUTHORIZED_STATUS = 401"
definition FORBIDDEN_STATUS :: nat where "FORBIDDEN_STATUS = 403"
definition NOT_FOUND :: nat where "NOT_FOUND = 404"

definition USER_NOT_FOUND :: string where "USER_NOT_FOUND = ''User not found''"
definition ACCOUNT_BANNED :: string where "ACCOUNT_BANNED = ''Your account has been banned''"
definition FILE_NOT_FOUND :: string where "FILE_NOT_FOUND = ''File not found''"
definition STORAGE_LIMIT :: string where
  "STORAGE_LIMIT = ''Storage limit exceeded. Please delete some files''"
definition FOLDER_NOT_FOUND :: string where "FOLDER_NOT_FOUND = ''Folder not found''"
definition CLIP_NOT_FOUND :: string where "CLIP_NOT_FOUND = ''Clipboard item not found''"

text \<open>What a handler sends back: the status code and the fields of the JSON body.\<close>

datatype response =
    Failure nat string
  | StorageLimitExceeded nat string int int "nat option"
  | FilesUploaded "file_doc list" nat nat int int
  | FileDetails file_doc
  | FileDeleted nat int
  | FilesDeleted nat nat int
  | ClipDetails clip
  | NextError error
  | FolderDeleted

section \<open>Library primitives the code relies on\<close>

text \<open>
  \<^verbatim>\<open>Model.find(q)\<close> hands back the documents that match; where the code requests no sort
  their order is the database's choice. The model enumerates them with \<^const>\<open>filter\<close>, and
  no statement depends on that order. \<^verbatim>\<open>Model.findOne(q)\<close> is \<^const>\<open>List.find\<close> (the queries
  of this code match at most one document), \<^verbatim>\<open>deleteOne(q)\<close> removes the first match and
  \<^verbatim>\<open>deleteMany(q)\<close> every match.
\<close>

fun deleteOne :: "('a \<Rightarrow> bool) \<Rightarrow> 'a list \<Rightarrow> 'a list" where
  "deleteOne q [] = []"
| "deleteOne q (x # xs) = (if q x then xs else x # deleteOne q xs)"

text \<open>\<^verbatim>\<open>User.findByIdAndUpdate(id, { $inc: { storageUsed: d } })\<close>: nothing happens when no
  user has that id; the increment is applied as it is, without any bound.\<close>

definition inc_storageUsed :: "object_id \<Rightarrow> int \<Rightarrow> (object_id \<rightharpoonup> user) \<Rightarrow> (object_id \<rightharpoonup> user)" where
  "inc_storageUsed uid d us =
     (case us uid of
        None \<Rightarrow> us
      | Some u \<Rightarrow> us(uid \<mapsto> u\<lparr>storageUsed := storageUsed u + d\<rparr>))"

text \<open>\<^verbatim>\<open>fs.unlink(p)\<close> rejects with ENOENT when the path is absent.\<close>

definition unlink :: "string \<Rightarrow> string set \<Rightarrow> error + string set" where
  "unlink p d = (if p \<in> d then Inr (d - {p}) else Inl ENOENT)"

text \<open>\<^verbatim>\<open>await fs.unlink(p).catch(() => { ... })\<close>: the rejection is swallowed.\<close>

definition unlink_quiet :: "string \<Rightarrow> string set \<Rightarrow> string set" where
  "unlink_quiet p d = (case unlink p d of Inl e \<Rightarrow> d | Inr d' \<Rightarrow> d')"

fun unlink_all :: "string list \<Rightarrow> string set \<Rightarrow> string set" where
  "unlink_all [] d = d"
| "unlink_all (p # ps) d = unlink_all ps (unlink_quiet p d)"

text \<open>
  The schema's \<^verbatim>\<open>trim: true\<close> setter is \<^verbatim>\<open>String.prototype.trim\<close>: it strips white space
  and line terminators from both ends. Strings are well-formed UTF-8 byte sequences here,
  so a white space character is one byte (U+0009 to U+000D, U+0020), two bytes (U+00A0) or
  three bytes (U+1680, U+2000 to U+200A, U+2028, U+2029, U+202F, U+205F, U+3000, U+FEFF).
\<close>

definition is_space :: "char \<Rightarrow> bool" where
  "is_space c = (c \<in> set [CHR 0x09, CHR 0x0A, CHR 0x0B, CHR 0x0C, CHR 0x0D, CHR 0x20])"

definition is_space2 :: "char \<Rightarrow> char \<Rightarrow> bool" where
  "is_space2 a b = (a = CHR 0xC2 \<and> b = CHR 0xA0)"

definition is_space3 :: "char \<Rightarrow> char \<Rightarrow> char \<Rightarrow> bool" where
  "is_space3 a b c =
     ((a = CHR 0xE1 \<and> b = CHR 0x9A \<and> c = CHR 0x80) \<or>
      (a = CHR 0xE2 \<and> b = CHR 0x80 \<and>
         c \<in> set [CHR 0x80, CHR 0x81, CHR 0x82, CHR 0x83, CHR 0x84, CHR 0x85, CHR 0x86, CHR 0x87,
                  CHR 0x88, CHR 0x89, CHR 0x8A, CHR 0xA8, CHR 0xA9, CHR 0xAF]) \<or>
      (a = CHR 0xE2 \<and> b = CHR 0x81 \<and> c = CHR 0x9F) \<or>
      (a = CHR 0xE3 \<and> b = CHR 0x80 \<and> c = CHR 0x80) \<or>
      (a = CHR 0xEF \<and> b = CHR 0xBB \<and> c = CHR 0xBF))"

fun trimStart :: "string \<Rightarrow> string" where
  "trimStart (a # b # c # s) =
     (if is_space a then trimStart (b # c # s)
      else if is_space2 a b then trimStart (c # s)
      else if is_space3 a b c then trimStart s
      else a # b # c # s)"
| "trimStart [a, b] =
     (if is_space a then trimStart [b] else if is_space2 a b then [] else [a, b])"
| "trimStart [a] = (if is_space a then [] else [a])"
| "trimStart [] = []"

text \<open>The same from the end, on the reversed string: the last byte comes first.\<close>

fun trimEnd_rev :: "string \<Rightarrow> string" where
  "trimEnd_rev (c # b # a # s) =
     (if is_space c then trimEnd_rev (b # a # s)
      else if is_space2 b c then trimEnd_rev (a # s)
      else if is_space3 a b c then trimEnd_rev s
      else c # b # a # s)"
| "trimEnd_rev [c, b] =
     (if is_space c then trimEnd_rev [b] else if is_space2 b c then [] else [c, b])"
| "trimEnd_rev [c] = (if is_space c then [] else [c])"
| "trimEnd_rev [] = []"

definition trim :: "string \<Rightarrow> string" where
  "trim s = rev (trimEnd_rev (rev (trimStart s)))"

section \<open>User model (models/User.js)\<close>

definition hasStorageSpace :: "user \<Rightarrow> int \<Rightarrow> bool" where
  "hasStorageSpace u bytes = (storageUsed u + bytes \<le> storageLimit u)"

text \<open>
  \<^verbatim>\<open>updateStorage\<close> works on the in-memory document \<open>(uid, u)\<close> the request holds, then
  saves it. \<^verbatim>\<open>save()\<close> sends \<^verbatim>\<open>$set\<close> for the modified path only, fails with
  DocumentNotFoundError when the document is gone, and writes nothing when the value did
  not change. The result is the new store and the in-memory document after the call.
\<close>

definition updateStorage :: "state \<Rightarrow> object_id \<times> user \<Rightarrow> int \<Rightarrow> error + (state \<times> user)" where
  "updateStorage st ru bytes =
     (let v = max 0 (storageUsed (snd ru) + bytes);
          u' = (snd ru)\<lparr>storageUsed := v\<rparr>
      in case users st (fst ru) of
           None \<Rightarrow> Inl DocumentNotFoundError
         | Some d \<Rightarrow>
             if v = storageUsed (snd ru) then Inr (st, u')
             else Inr (st\<lparr>users := (users st)(fst ru \<mapsto> d\<lparr>storageUsed := v\<rparr>)\<rparr>, u'))"

section \<open>Authentication middleware (middleware/auth.js)\<close>

text \<open>\<open>uid\<close> is the id decoded from a verified token; the document found becomes
  \<^verbatim>\<open>req.user\<close>.\<close>

definition protect :: "state \<Rightarrow> object_id \<Rightarrow> response + (object_id \<times> user)" where
  "protect st uid =
     (case users st uid of
        None \<Rightarrow> Inl (Failure UNAUTHORIZED_STATUS USER_NOT_FOUND)
      | Some u \<Rightarrow>
          if isBanned u then Inl (Failure FORBIDDEN_STATUS ACCOUNT_BANNED)
          else Inr (uid, u))"

section \<open>Upload middleware (middleware/upload.js)\<close>

text \<open>
  \<^verbatim>\<open>checkStorageSpace\<close> runs before the payloads are received. \<open>contentLength\<close> is
  \<^verbatim>\<open>parseInt(req.headers['content-length']) || 0\<close>. \<open>None\<close> stands for \<^verbatim>\<open>next()\<close>; the
  rejection carries no \<^verbatim>\<open>required\<close> field. The type filter and the size limits of the
  upload library are not modelled: they reject a request before the handler sees it.
\<close>

definition checkStorageSpace :: "user \<Rightarrow> nat \<Rightarrow> response option" where
  "checkStorageSpace u contentLength =
     (if \<not> hasStorageSpace u (int contentLength)
      then Some (StorageLimitExceeded BAD_REQUEST STORAGE_LIMIT (storageUsed u) (storageLimit u) None)
      else None)"

section \<open>File model (models/File.js)\<close>

text \<open>The validators of a new document: a required string must not be empty, and the
  required expiry date must be a date.\<close>

definition validates :: "file_doc \<Rightarrow> bool" where
  "validates f =
     (originalName f \<noteq> [] \<and> fileName f \<noteq> [] \<and> filePath f \<noteq> [] \<and>
      mimeType f \<noteq> [] \<and> extension f \<noteq> [] \<and> valid_date (expiresAt f))"

text \<open>The post-save hook: a new document adds its size to the owner's counter.\<close>

definition post_save :: "state \<Rightarrow> file_doc \<Rightarrow> bool \<Rightarrow> state" where
  "post_save st doc wasNew =
     (if wasNew
      then st\<lparr>users := inc_storageUsed (userId doc) (int (fileSize doc)) (users st)\<rparr>
      else st)"

text \<open>
  \<^verbatim>\<open>File.create(props)\<close>: the setters run, the document gets a fresh id, is validated and
  inserted (\<^verbatim>\<open>fileName\<close> carries a unique index), then the hooks run with
  \<^verbatim>\<open>wasNew = isNew = true\<close>.
\<close>

definition File_create :: "state \<Rightarrow> file_doc \<Rightarrow> error + (state \<times> file_doc)" where
  "File_create st props =
     (let doc = props\<lparr>file_id := nextId st, originalName := trim (originalName props)\<rparr>
      in if \<not> validates doc then Inl ValidationError
         else if fileName doc \<in> set (map fileName (files st)) then Inl DuplicateKeyError
         else Inr (post_save (st\<lparr>files := files st @ [doc], nextId := Suc (nextId st)\<rparr>) doc True,
                   doc))"

text \<open>
  \<^verbatim>\<open>file.deleteOne()\<close> on a document: the pre-delete hook unlinks the payload (a failure
  is only logged) and decrements the owner's counter, then the record with the
  document's id is deleted.
\<close>

definition file_deleteOne :: "state \<Rightarrow> file_doc \<Rightarrow> state" where
  "file_deleteOne st f =
     st\<lparr>disk := unlink_quiet (filePath f) (disk st),
        users := inc_storageUsed (userId f) (- int (fileSize f)) (users st),
        files := deleteOne (\<lambda>g. file_id g = file_id f) (files st)\<rparr>"

text \<open>
  \<^verbatim>\<open>this.expiresAt = new Date(Date.now() + days * 24 * 60 * 60 * 1000)\<close>, with the default
  parameter \<^verbatim>\<open>days = FILE_CONFIG.EXPIRY_DAYS\<close>. When the time value is outside the range
  of a date the assignment fails to cast: the document keeps its old \<^verbatim>\<open>expiresAt\<close> and is
  marked invalid.
\<close>

definition new_expiry :: "int option \<Rightarrow> timestamp \<Rightarrow> int option \<Rightarrow> timestamp" where
  "new_expiry env now days =
     now + (case days of None \<Rightarrow> EXPIRY_DAYS env | Some d \<Rightarrow> d) * DAY_MS"

definition extendExpiry_doc :: "int option \<Rightarrow> timestamp \<Rightarrow> int option \<Rightarrow> file_doc \<Rightarrow> file_doc" where
  "extendExpiry_doc env now days f =
     (if valid_date (new_expiry env now days) then f\<lparr>expiresAt := new_expiry env now days\<rparr> else f)"

text \<open>
  \<^verbatim>\<open>extendExpiry\<close> with its \<^verbatim>\<open>save()\<close>. A document marked invalid is rejected with a
  ValidationError before anything is written. Otherwise the stored document with the same
  id gets the new date (a document that was loaded from the store passes the other
  validators); the post-save hook sees \<^verbatim>\<open>wasNew = false\<close> and leaves the counter alone.
\<close>

definition extendExpiry :: "int option \<Rightarrow> timestamp \<Rightarrow> int option \<Rightarrow> state \<Rightarrow> file_doc \<Rightarrow> error + (state \<times> file_doc)" where
  "extendExpiry env now days st f =
     (let f' = extendExpiry_doc env now days f
      in if \<not> valid_date (new_expiry env now days) then Inl ValidationError
         else if List.find (\<lambda>g. file_id g = file_id f) (files st) = None
         then Inl DocumentNotFoundError
         else Inr (post_save
                     (st\<lparr>files := map (\<lambda>g. if file_id g = file_id f
                                             then g\<lparr>expiresAt := expiresAt f'\<rparr> else g) (files st)\<rparr>)
                     f' False,
                   f'))"

text \<open>
  \<^verbatim>\<open>getExpiredFiles\<close>: \<^verbatim>\<open>find({ expiresAt: { $lt: new Date() } })\<close>. The code requests no
  order, so the order of the result is the database's choice. The list below enumerates
  the matching documents in one such order; what is stated about the result is stated
  about the documents in it, never about the order.
\<close>

definition getExpiredFiles :: "timestamp \<Rightarrow> state \<Rightarrow> file_doc list" where
  "getExpiredFiles now st = filter (\<lambda>f. expiresAt f < now) (files st)"

text \<open>The loop \<^verbatim>\<open>for (const file of fs) { freed += file.fileSize; await file.deleteOne(); }\<close>,
  shared by the model's static cleanup and the multi-delete handler.\<close>

fun delete_each :: "state \<Rightarrow> file_doc list \<Rightarrow> nat \<Rightarrow> state \<times> nat" where
  "delete_each st [] freed = (st, freed)"
| "delete_each st (f # fs) freed = delete_each (file_deleteOne st f) fs (freed + fileSize f)"

text \<open>The static \<^verbatim>\<open>cleanupExpiredFiles\<close> of the model: new store, count, freed space.\<close>

definition File_cleanupExpiredFiles :: "timestamp \<Rightarrow> state \<Rightarrow> state \<times> nat \<times> nat" where
  "File_cleanupExpiredFiles now st =
     (let expiredFiles = getExpiredFiles now st;
          r = delete_each st expiredFiles 0
      in (fst r, length expiredFiles, snd r))"

section \<open>Clipboard model and controller\<close>

text \<open>\<^verbatim>\<open>clipboardSchema.methods.extendExpiry\<close>, with the default
  \<^verbatim>\<open>days = CLIPBOARD_CONFIG.EXPIRY_DAYS\<close> (read from the same environment variable) and
  the same cast of the date.\<close>

definition clip_extendExpiry_doc :: "int option \<Rightarrow> timestamp \<Rightarrow> int option \<Rightarrow> clip \<Rightarrow> clip" where
  "clip_extendExpiry_doc env now days c =
     (if valid_date (new_expiry env now days) then c\<lparr>clip_expiresAt := new_expiry env now days\<rparr>
      else c)"

text \<open>\<^verbatim>\<open>getClip\<close>: \<^verbatim>\<open>Clipboard.findOne({ _id: req.params.id, userId: req.user._id })\<close>.\<close>

definition getClip :: "state \<Rightarrow> object_id \<times> user \<Rightarrow> object_id \<Rightarrow> response" where
  "getClip st ru cid =
     (case List.find (\<lambda>c. clip_id c = cid \<and> clip_userId c = fst ru) (clips st) of
        None \<Rightarrow> Failure NOT_FOUND CLIP_NOT_FOUND
      | Some c \<Rightarrow> ClipDetails c)"

section \<open>File controller\<close>

text \<open>
  A file object as the upload middleware hands it over. \<open>up_extname\<close> is
  \<^verbatim>\<open>path.extname(file.originalname).toLowerCase()\<close>, computed by the platform's path
  module.
\<close>

record upload =
  up_originalname :: string
  up_filename :: string
  up_path :: string
  up_size :: nat
  up_mimetype :: string
  up_extname :: string

record upload_req =
  req_files :: "upload list"
  req_file :: "upload option"
  body_folderId :: "object_id option"

text \<open>The document passed to \<^verbatim>\<open>File.create\<close> for one uploaded file.\<close>

definition new_file :: "int option \<Rightarrow> timestamp \<Rightarrow> object_id \<Rightarrow> object_id option \<Rightarrow> upload \<Rightarrow> file_doc" where
  "new_file env now uid fid up =
     \<lparr>file_id = 0, userId = uid, originalName = up_originalname up, fileName = up_filename up,
      filePath = up_path up, fileSize = up_size up, mimeType = up_mimetype up,
      extension = up_extname up, folderId = fid,
      expiresAt = now + EXPIRY_DAYS env * DAY_MS\<rparr>"

text \<open>
  The loop that creates the records. An exception of \<^verbatim>\<open>File.create\<close> leaves the loop with
  the store as it is at that moment: the records created so far stay.
\<close>

fun create_records ::
  "int option \<Rightarrow> timestamp \<Rightarrow> object_id \<Rightarrow> object_id option \<Rightarrow> state \<Rightarrow> upload list \<Rightarrow> file_doc list
     \<Rightarrow> (state \<times> error) + (state \<times> file_doc list)" where
  "create_records env now uid fid st [] uploadedFiles = Inr (st, uploadedFiles)"
| "create_records env now uid fid st (up # ups) uploadedFiles =
     (case File_create st (new_file env now uid fid up) of
        Inl e \<Rightarrow> Inl (st, e)
      | Inr (st', fileDoc) \<Rightarrow> create_records env now uid fid st' ups (uploadedFiles @ [fileDoc]))"

text \<open>
  \<^verbatim>\<open>uploadFiles\<close>. \<open>ru\<close> is \<^verbatim>\<open>req.user\<close>, the document the authentication middleware
  loaded. The payloads are on disk already when the handler runs. The \<^verbatim>\<open>catch\<close> block
  unlinks every payload of the request and passes the error on.
\<close>

definition uploadFiles :: "int option \<Rightarrow> timestamp \<Rightarrow> state \<Rightarrow> object_id \<times> user \<Rightarrow> upload_req \<Rightarrow> state \<times> response" where
  "uploadFiles env now st ru req =
     (case (if req_files req = []
            then (case req_file req of None \<Rightarrow> None | Some f \<Rightarrow> Some [f])
            else Some (req_files req)) of
        None \<Rightarrow> (st, Failure BAD_REQUEST ''No files uploaded'')
      | Some fs \<Rightarrow>
          if (case body_folderId req of
                None \<Rightarrow> False
              | Some fid \<Rightarrow>
                  List.find (\<lambda>g. folder_id g = fid \<and> folder_userId g = fst ru) (folders st) = None)
          then (st\<lparr>disk := unlink_all (map up_path fs) (disk st)\<rparr>,
                Failure NOT_FOUND FOLDER_NOT_FOUND)
          else
            let totalSize = sum_list (map up_size fs) in
            if \<not> hasStorageSpace (snd ru) (int totalSize)
            then (st\<lparr>disk := unlink_all (map up_path fs) (disk st)\<rparr>,
                  StorageLimitExceeded BAD_REQUEST STORAGE_LIMIT
                    (storageUsed (snd ru)) (storageLimit (snd ru)) (Some totalSize))
            else
              (case create_records env now (fst ru) (body_folderId req) st fs [] of
                 Inl (st1, e) \<Rightarrow>
                   (st1\<lparr>disk := unlink_all (map up_path fs) (disk st1)\<rparr>, NextError e)
               | Inr (st1, uploadedFiles) \<Rightarrow>
                   (case updateStorage st1 ru (int totalSize) of
                      Inl e \<Rightarrow>
                        (st1\<lparr>disk := unlink_all (map up_path fs) (disk st1)\<rparr>, NextError e)
                    | Inr (st2, u') \<Rightarrow>
                        (st2, FilesUploaded uploadedFiles (length uploadedFiles) totalSize
                                (storageUsed u' + int totalSize) (storageLimit u')))))"

text \<open>\<^verbatim>\<open>getFile\<close>: \<^verbatim>\<open>File.findOne({ _id: req.params.id, userId: req.user._id })\<close>.\<close>

definition getFile :: "state \<Rightarrow> object_id \<times> user \<Rightarrow> object_id \<Rightarrow> response" where
  "getFile st ru fid =
     (case List.find (\<lambda>f. file_id f = fid \<and> userId f = fst ru) (files st) of
        None \<Rightarrow> Failure NOT_FOUND FILE_NOT_FOUND
      | Some f \<Rightarrow> FileDetails f)"

definition deleteFile :: "state \<Rightarrow> object_id \<times> user \<Rightarrow> object_id \<Rightarrow> state \<times> response" where
  "deleteFile st ru fid =
     (case List.find (\<lambda>f. file_id f = fid \<and> userId f = fst ru) (files st) of
        None \<Rightarrow> (st, Failure NOT_FOUND FILE_NOT_FOUND)
      | Some f \<Rightarrow>
          (file_deleteOne st f,
           FileDeleted (fileSize f) (storageUsed (snd ru) - int (fileSize f))))"

definition deleteMultipleFiles :: "state \<Rightarrow> object_id \<times> user \<Rightarrow> object_id list \<Rightarrow> state \<times> response" where
  "deleteMultipleFiles st ru fileIds =
     (if fileIds = [] then (st, Failure BAD_REQUEST ''Please provide an array of file IDs'')
      else
        let fs = filter (\<lambda>f. file_id f \<in> set fileIds \<and> userId f = fst ru) (files st) in
        if fs = [] then (st, Failure NOT_FOUND ''No files found'')
        else
          let r = delete_each st fs 0 in
          (fst r, FilesDeleted (length fs) (snd r) (storageUsed (snd ru) - int (snd r))))"

section \<open>Folder model and controller\<close>

text \<open>
  The pre-delete hook of a folder document: the subfolders found by
  \<^verbatim>\<open>Folder.find({ parentId: this._id })\<close> are deleted one by one, each through its own hook,
  then \<^verbatim>\<open>File.deleteMany({ folderId: this._id })\<close> removes the file records of the folder.
  \<^verbatim>\<open>deleteMany\<close> is a query: it runs no document hook of the file model, so no payload is
  unlinked and no counter is touched. Then the folder document itself is deleted. The
  recursion follows the parent pointers of the store and need not end; the first argument
  is its fuel, the number of nested hook calls allowed, and \<open>None\<close> says that it ran out.
\<close>

fun folder_deleteOne :: "nat \<Rightarrow> state \<Rightarrow> folder \<Rightarrow> state option"
  and delete_subfolders :: "nat \<Rightarrow> state \<Rightarrow> folder list \<Rightarrow> state option" where
  "folder_deleteOne 0 st fo = None"
| "folder_deleteOne (Suc depth) st fo =
     (case delete_subfolders depth st
             (filter (\<lambda>g. folder_parentId g = Some (folder_id fo)) (folders st)) of
        None \<Rightarrow> None
      | Some st1 \<Rightarrow>
          Some (st1\<lparr>files := filter (\<lambda>f. folderId f \<noteq> Some (folder_id fo)) (files st1),
                     folders := deleteOne (\<lambda>g. folder_id g = folder_id fo) (folders st1)\<rparr>))"
| "delete_subfolders depth st [] = Some st"
| "delete_subfolders depth st (subfolder # subfolders) =
     (case folder_deleteOne depth st subfolder of
        None \<Rightarrow> None
      | Some st1 \<Rightarrow> delete_subfolders depth st1 subfolders)"

text \<open>\<^verbatim>\<open>File.updateMany({ folderId, userId }, { $set: { folderId: null } })\<close>.\<close>

definition files_to_root :: "object_id \<Rightarrow> object_id \<Rightarrow> state \<Rightarrow> state" where
  "files_to_root uid fid st =
     st\<lparr>files := map (\<lambda>f. if folderId f = Some fid \<and> userId f = uid
                            then f\<lparr>folderId := None\<rparr> else f) (files st)\<rparr>"

fun moveFilesFromSubfolders :: "nat \<Rightarrow> object_id \<Rightarrow> state \<Rightarrow> object_id \<Rightarrow> state option"
  and move_each :: "nat \<Rightarrow> object_id \<Rightarrow> state \<Rightarrow> folder list \<Rightarrow> state option" where
  "moveFilesFromSubfolders 0 uid st fid = None"
| "moveFilesFromSubfolders (Suc depth) uid st fid =
     move_each depth uid st (filter (\<lambda>g. folder_parentId g = Some fid) (folders st))"
| "move_each depth uid st [] = Some st"
| "move_each depth uid st (subfolder # subfolders) =
     (case moveFilesFromSubfolders depth uid
             (files_to_root uid (folder_id subfolder) st) (folder_id subfolder) of
        None \<Rightarrow> None
      | Some st1 \<Rightarrow> move_each depth uid st1 subfolders)"

text \<open>\<^verbatim>\<open>deleteFolder\<close>; \<open>keepFiles\<close> says whether the query parameter is the string
  \<^verbatim>\<open>'true'\<close>.\<close>

definition deleteFolder :: "nat \<Rightarrow> state \<Rightarrow> object_id \<times> user \<Rightarrow> object_id \<Rightarrow> bool \<Rightarrow> (state \<times> response) option" where
  "deleteFolder depth st ru fid keepFiles =
     (case List.find (\<lambda>g. folder_id g = fid \<and> folder_userId g = fst ru) (folders st) of
        None \<Rightarrow> Some (st, Failure NOT_FOUND FOLDER_NOT_FOUND)
      | Some fo \<Rightarrow>
          (case (if keepFiles
                 then moveFilesFromSubfolders depth (fst ru)
                        (files_to_root (fst ru) (folder_id fo) st) (folder_id fo)
                 else Some st) of
             None \<Rightarrow> None
           | Some st1 \<Rightarrow>
               (case folder_deleteOne depth st1 fo of
                  None \<Rightarrow> None
                | Some st2 \<Rightarrow> Some (st2, FolderDeleted))))"

section \<open>Scheduled tasks service\<close>

record cleanup_result =
  deletedCount :: nat
  freedSpace :: nat

text \<open>
  The first loop of \<^verbatim>\<open>cleanupExpiredFiles\<close>. \<open>pop\<close> is the users collection at the time of
  the query: \<^verbatim>\<open>populate\<close> leaves \<^verbatim>\<open>file.userId\<close> null when the owner does not exist.
  \<open>m\<close> is the \<^verbatim>\<open>userStorageUpdates\<close> map, an association list in insertion order, and
  \<open>get_or_zero\<close> is \<^verbatim>\<open>userStorageUpdates.get(userId) || 0\<close>. The
  record is removed with \<^verbatim>\<open>File.deleteOne({ _id: file._id })\<close>, a query that runs no
  document hook. Database calls do not fail in this model, so the \<^verbatim>\<open>errors\<close> list of the
  source stays empty and is left out.
\<close>

definition get_or_zero :: "(object_id \<times> nat) list \<Rightarrow> object_id \<Rightarrow> nat" where
  "get_or_zero m uid = (case map_of m uid of None \<Rightarrow> 0 | Some current \<Rightarrow> current)"

fun sweep_files ::
  "(object_id \<rightharpoonup> user) \<Rightarrow> state \<Rightarrow> file_doc list \<Rightarrow> (object_id \<times> nat) list \<Rightarrow> nat \<Rightarrow> nat
     \<Rightarrow> state \<times> (object_id \<times> nat) list \<times> nat \<times> nat" where
  "sweep_files pop st [] m cnt freed = (st, m, cnt, freed)"
| "sweep_files pop st (f # fs) m cnt freed =
     sweep_files pop
       (st\<lparr>disk := unlink_quiet (filePath f) (disk st),
           files := deleteOne (\<lambda>g. file_id g = file_id f) (files st)\<rparr>)
       fs
       (case pop (userId f) of
          None \<Rightarrow> m
        | Some owner \<Rightarrow>
            AList.update (userId f) (get_or_zero m (userId f) + fileSize f) m)
       (Suc cnt) (freed + fileSize f)"

text \<open>The second loop: one unbounded \<^verbatim>\<open>$inc\<close> of \<open>- spaceFreed\<close> per user.\<close>

fun apply_updates :: "(object_id \<times> nat) list \<Rightarrow> (object_id \<rightharpoonup> user) \<Rightarrow> (object_id \<rightharpoonup> user)" where
  "apply_updates [] us = us"
| "apply_updates ((uid, spaceFreed) # m) us =
     apply_updates m (inc_storageUsed uid (- int spaceFreed) us)"

definition cleanupExpiredFiles :: "timestamp \<Rightarrow> state \<Rightarrow> state \<times> cleanup_result" where
  "cleanupExpiredFiles now st =
     (let expiredFiles = filter (\<lambda>f. expiresAt f < now) (files st) in
      case sweep_files (users st) st expiredFiles [] 0 0 of
        (st1, m, cnt, freed) \<Rightarrow>
          (st1\<lparr>users := apply_updates m (users st1)\<rparr>,
           \<lparr>deletedCount = cnt, freedSpace = freed\<rparr>))"

section \<open>Requests over time\<close>

text \<open>
  A request is served in two moments. First the authentication middleware loads the
  user document, which stays with the request as \<^verbatim>\<open>req.user\<close>. Later, once the body has
  been received, the rest runs with that document: for an upload the storage check on the
  content length (it reads \<^verbatim>\<open>req.user\<close> only), the payloads written by the upload
  middleware, and the handler. Other requests and cleanup runs may commit in between. The
  server is the store together with the request documents of the requests in flight,
  keyed by a request number.
\<close>

record server =
  store :: state
  in_flight :: "nat \<rightharpoonup> object_id \<times> user"

datatype event =
    Authenticate nat object_id
  | UploadBody nat nat upload_req timestamp
  | DeleteBody nat object_id
  | DeleteMultipleBody nat "object_id list"
  | SweepRun timestamp
  | ModelSweepRun timestamp

definition request_files :: "upload_req \<Rightarrow> upload list" where
  "request_files req =
     (if req_files req = [] then (case req_file req of None \<Rightarrow> [] | Some f \<Rightarrow> [f])
      else req_files req)"

fun step :: "int option \<Rightarrow> server \<Rightarrow> event \<Rightarrow> server" where
  "step env sv (Authenticate rid uid) =
     (case protect (store sv) uid of
        Inl r \<Rightarrow> sv\<lparr>in_flight := (in_flight sv)(rid := None)\<rparr>
      | Inr ru \<Rightarrow> sv\<lparr>in_flight := (in_flight sv)(rid \<mapsto> ru)\<rparr>)"
| "step env sv (UploadBody rid contentLength req now) =
     (case in_flight sv rid of
        None \<Rightarrow> sv
      | Some ru \<Rightarrow>
          (case checkStorageSpace (snd ru) contentLength of
             Some r \<Rightarrow> sv\<lparr>in_flight := (in_flight sv)(rid := None)\<rparr>
           | None \<Rightarrow>
               \<lparr>store = fst (uploadFiles env now
                              ((store sv)\<lparr>disk := disk (store sv) \<union>
                                                    set (map up_path (request_files req))\<rparr>)
                              ru req),
                in_flight = (in_flight sv)(rid := None)\<rparr>))"
| "step env sv (DeleteBody rid fid) =
     (case in_flight sv rid of
        None \<Rightarrow> sv
      | Some ru \<Rightarrow>
          \<lparr>store = fst (deleteFile (store sv) ru fid), in_flight = (in_flight sv)(rid := None)\<rparr>)"
| "step env sv (DeleteMultipleBody rid fileIds) =
     (case in_flight sv rid of
        None \<Rightarrow> sv
      | Some ru \<Rightarrow>
          \<lparr>store = fst (deleteMultipleFiles (store sv) ru fileIds),
           in_flight = (in_flight sv)(rid := None)\<rparr>)"
| "step env sv (SweepRun now) = sv\<lparr>store := fst (cleanupExpiredFiles now (store sv))\<rparr>"
| "step env sv (ModelSweepRun now) = sv\<lparr>store := fst (File_cleanupExpiredFiles now (store sv))\<rparr>"

definition run :: "int option \<Rightarrow> server \<Rightarrow> event list \<Rightarrow> server" where
  "run env sv evs = foldl (step env) sv evs"




definition idle :: "state \<Rightarrow> server" where
  "idle st = \<lparr>store = st, in_flight = Map.empty\<rparr>"

text \<open>A store before any upload: no file records, every counter at its default 0 and
  no negative limit.\<close>

definition fresh :: "state \<Rightarrow> bool" where
  "fresh st = (files st = [] \<and>
     (\<forall>uid. case users st uid of None \<Rightarrow> True | Some u \<Rightarrow> storageUsed u = 0 \<and> 0 \<le> storageLimit u))"

text \<open>The bytes of the records a user owns.\<close>

definition owned_total :: "object_id \<Rightarrow> file_doc list \<Rightarrow> nat" where
  "owned_total uid fs = sum_list (map fileSize (filter (\<lambda>f. userId f = uid) fs))"


text \<open>The store the record-creating loop leaves behind, on either outcome.\<close>

definition store_after :: "(state \<times> error) + (state \<times> file_doc list) \<Rightarrow> state" where
  "store_after r = (case r of Inl (s, e) \<Rightarrow> s | Inr (s, docs) \<Rightarrow> s)"

section \<open>Example stores\<close>

definition example_user :: "int \<Rightarrow> int \<Rightarrow> user" where
  "example_user used lim = \<lparr>storageUsed = used, storageLimit = lim, isBanned = False\<rparr>"

definition example_file :: "object_id \<Rightarrow> object_id \<Rightarrow> string \<Rightarrow> nat \<Rightarrow> timestamp \<Rightarrow> file_doc" where
  "example_file i uid p sz e =
     \<lparr>file_id = i, userId = uid, originalName = ''notes.txt'', fileName = p, filePath = p,
      fileSize = sz, mimeType = ''text/plain'', extension = ''.txt'', folderId = None,
      expiresAt = e\<rparr>"

definition example_clip :: "object_id \<Rightarrow> object_id \<Rightarrow> timestamp \<Rightarrow> clip" where
  "example_clip i uid e = \<lparr>clip_id = i, clip_userId = uid, content = ''hello'', clip_expiresAt = e\<rparr>"

definition example_upload :: "string \<Rightarrow> nat \<Rightarrow> upload" where
  "example_upload p sz =
     \<lparr>up_originalname = ''report.pdf'', up_filename = p, up_path = p, up_size = sz,
      up_mimetype = ''application/pdf'', up_extname = ''.pdf''\<rparr>"

definition example_request :: "upload list \<Rightarrow> upload_req" where
  "example_request ups = \<lparr>req_files = ups, req_file = None, body_folderId = None\<rparr>"

text \<open>Two accounts; the payload of file 12 is missing on disk.\<close>

definition example_store :: state where
  "example_store =
     \<lparr>users = [1 \<mapsto> example_user 130 1000, 2 \<mapsto> example_user 50 1000],
      files = [example_file 11 1 ''uploads/1/a.txt'' 100 20,
               example_file 12 2 ''uploads/2/b.txt'' 50 5,
               example_file 13 1 ''uploads/1/c.txt'' 30 30],
      folders = [],
      clips = [example_clip 21 2 40],
      disk = {''uploads/1/a.txt'', ''uploads/1/c.txt''},
      nextId = 22\<rparr>"


text \<open>A store before any upload, with one account.\<close>

definition empty_store :: state where
  "empty_store =
     \<lparr>users = [1 \<mapsto> example_user 0 1000], files = [], folders = [], clips = [],
      disk = {}, nextId = 2\<rparr>"

text \<open>One account with one file in a folder; the payload of the file is missing on disk.\<close>

definition folder_store :: state where
  "folder_store =
     \<lparr>users = [2 \<mapsto> example_user 50 1000],
      files = [(example_file 12 2 ''uploads/2/b.txt'' 50 5)\<lparr>folderId := Some 31\<rparr>],
      folders = [\<lparr>folder_id = 31, folder_userId = 2, folder_parentId = None\<rparr>],
      clips = [], disk = {}, nextId = 32\<rparr>"

text \<open>A store whose counter has drifted below the size of a record it counts.\<close>

definition drift_store :: state where
  "drift_store =
     \<lparr>users = [1 \<mapsto> example_user 50 1000],
      files = [example_file 2 1 ''uploads/1/g.bin'' 100 20, example_file 3 1 ''uploads/1/h.bin'' 50 20],
      folders = [], clips = [],
      disk = {''uploads/1/g.bin'', ''uploads/1/h.bin''}, nextId = 4\<rparr>"

section \<open>Basic facts about the primitives\<close>

lemma find_Some_holds: "List.find P xs = Some x \<Longrightarrow> x \<in> set xs \<and> P x"
  by (induction xs) (auto split: if_splits)

lemma deleteOne_by_key:
  "distinct (map g xs) \<Longrightarrow> deleteOne (\<lambda>y. g y = i) xs = filter (\<lambda>y. g y \<noteq> i) xs"
proof (induction xs)
  case Nil
  then show ?case by simp
next
  case (Cons x xs)
  show ?case
  proof (cases "g x = i")
    case True
    with Cons.prems have "\<forall>y \<in> set xs. g y \<noteq> i" by (auto simp: image_iff)
    then have "filter (\<lambda>y. g y \<noteq> i) xs = xs" by (simp add: filter_id_conv)
    with True show ?thesis by simp
  next
    case False
    with Cons show ?thesis by simp
  qed
qed

lemma inc_storageUsed_lookup:
  "inc_storageUsed uid d us k =
     (if k = uid then map_option (\<lambda>u. u\<lparr>storageUsed := storageUsed u + d\<rparr>) (us uid) else us k)"
  by (simp add: inc_storageUsed_def split: option.splits)

lemma inc_storageUsed_twice:
  "inc_storageUsed uid a (inc_storageUsed uid b us) = inc_storageUsed uid (b + a) us"
  by (rule ext) (simp add: inc_storageUsed_lookup option.map_comp comp_def add.assoc)

lemma inc_storageUsed_zero: "inc_storageUsed uid 0 us = us"
  by (rule ext) (simp add: inc_storageUsed_lookup option.map_ident)

lemma unlink_quiet_minus: "unlink_quiet p d = d - {p}"
  by (auto simp: unlink_quiet_def unlink_def)



lemma owned_total_Cons:
  "owned_total uid (x # xs) = (if userId x = uid then fileSize x else 0) + owned_total uid xs"
  by (simp add: owned_total_def)

lemma owned_total_Nil: "owned_total uid [] = 0"
  by (simp add: owned_total_def)

lemma owned_total_split:
  "owned_total uid xs = owned_total uid (filter P xs) + owned_total uid (filter (\<lambda>x. \<not> P x) xs)"
  by (induction xs) (auto simp: owned_total_Cons owned_total_Nil)

lemma sweep_counts:
  "fst (snd (snd (sweep_files pop st fs m cnt freed))) = cnt + length fs"
  by (induction fs arbitrary: st m cnt freed) simp_all

lemmas example_defs =
  example_user_def example_file_def example_clip_def example_upload_def example_request_def
  example_store_def empty_store_def

section \<open>Expiry\<close>

text \<open>
  C10 (as the code has it). Whenever the time of the call plus \<open>d\<close> days is a time value a
  date can hold (at most 8.64e15 ms from the epoch), \<^verbatim>\<open>extendExpiry(d)\<close> sets \<^verbatim>\<open>expiresAt\<close> of
  a file or a clip to that time (with the configured default for \<open>d\<close>, 7 when the
  environment sets none), whatever the previous date was; so when more than \<open>d\<close> days of
  lifetime remain, the date moves earlier. On a file that is in the store the call
  succeeds, stores the new date under the file's id and leaves the users alone. Outside
  the range of a date the document keeps its date and the save of the file is rejected.
\<close>

theorem extendExpiry_from_now:
  "(valid_date (now + d * DAY_MS) \<longrightarrow>
      expiresAt (extendExpiry_doc env now (Some d) f) = now + d * DAY_MS \<and>
      clip_expiresAt (clip_extendExpiry_doc env now (Some d) c) = now + d * DAY_MS \<and>
      extendExpiry_doc env now (Some d) (f\<lparr>expiresAt := e\<rparr>) = extendExpiry_doc env now (Some d) f \<and>
      clip_extendExpiry_doc env now (Some d) (c\<lparr>clip_expiresAt := e\<rparr>) =
        clip_extendExpiry_doc env now (Some d) c \<and>
      (d * DAY_MS < expiresAt f - now \<longrightarrow>
         expiresAt (extendExpiry_doc env now (Some d) f) < expiresAt f) \<and>
      (d * DAY_MS < clip_expiresAt c - now \<longrightarrow>
         clip_expiresAt (clip_extendExpiry_doc env now (Some d) c) < clip_expiresAt c) \<and>
      (List.find (\<lambda>g. file_id g = file_id f) (files st) \<noteq> None \<longrightarrow>
         (\<exists>st'. extendExpiry env now (Some d) st f = Inr (st', extendExpiry_doc env now (Some d) f) \<and>
                users st' = users st \<and>
                map file_id (files st') = map file_id (files st) \<and>
                (\<forall>g \<in> set (files st'). file_id g = file_id f \<longrightarrow> expiresAt g = now + d * DAY_MS)))) \<and>
   (valid_date (now + EXPIRY_DAYS env * DAY_MS) \<longrightarrow>
      expiresAt (extendExpiry_doc env now None f) = now + EXPIRY_DAYS env * DAY_MS \<and>
      clip_expiresAt (clip_extendExpiry_doc env now None c) = now + EXPIRY_DAYS env * DAY_MS) \<and>
   EXPIRY_DAYS None = 7 \<and>
   (\<not> valid_date (now + d * DAY_MS) \<longrightarrow>
      extendExpiry_doc env now (Some d) f = f \<and>
      clip_extendExpiry_doc env now (Some d) c = c \<and>
      extendExpiry env now (Some d) st f = Inl ValidationError)"
  by (auto simp: extendExpiry_doc_def clip_extendExpiry_doc_def new_expiry_def EXPIRY_DAYS_def
      extendExpiry_def post_save_def Let_def comp_def)

theorem extendExpiry_from_now_witness:
  "valid_date (0 + 1 * DAY_MS) \<and>
   1 * DAY_MS < expiresAt (example_file 11 1 ''uploads/1/a.txt'' 100 864000000) - 0 \<and>
   expiresAt (extendExpiry_doc None 0 (Some 1) (example_file 11 1 ''uploads/1/a.txt'' 100 864000000))
     = 86400000 \<and>
   expiresAt (extendExpiry_doc None 0 (Some 1) (example_file 11 1 ''uploads/1/a.txt'' 100 864000000))
     < expiresAt (example_file 11 1 ''uploads/1/a.txt'' 100 864000000) \<and>
   valid_date (0 + EXPIRY_DAYS None * DAY_MS) \<and>
   expiresAt (extendExpiry_doc None 0 None (example_file 11 1 ''uploads/1/a.txt'' 100 864000000))
     = 604800000 \<and>
   List.find (\<lambda>g. file_id g = file_id (example_file 11 1 ''uploads/1/a.txt'' 100 20))
     (files example_store) \<noteq> None \<and>
   (case extendExpiry None 0 (Some 1) example_store (example_file 11 1 ''uploads/1/a.txt'' 100 20) of
      Inl e \<Rightarrow> False
    | Inr r \<Rightarrow> map expiresAt (files (fst r)) = [86400000, 5, 30] \<and>
               users (fst r) 1 = users example_store 1) \<and>
   \<not> valid_date (0 + 100000001 * DAY_MS) \<and>
   extendExpiry None 0 (Some 100000001) example_store (example_file 11 1 ''uploads/1/a.txt'' 100 20)
     = Inl ValidationError"
  using extendExpiry_from_now [of 0 1 None "example_file 11 1 ''uploads/1/a.txt'' 100 864000000"
      "example_clip 21 2 40" 20 example_store]
    extendExpiry_from_now [of 0 1 None "example_file 11 1 ''uploads/1/a.txt'' 100 20"
      "example_clip 21 2 40" 20 example_store]
    extendExpiry_from_now [of 0 100000001 None "example_file 11 1 ''uploads/1/a.txt'' 100 20"
      "example_clip 21 2 40" 20 example_store]
  by (simp add: example_defs DAY_MS_def EXPIRY_DAYS_def extendExpiry_doc_def extendExpiry_def
      new_expiry_def valid_date_def MAX_DATE_def post_save_def Let_def)

text \<open>
  C10 as the specification words it, for every days value, fails at \<open>d = 100000001\<close>
  called at time 0 on file 11 of the example store (expiry 20): the new time value
  8640000086400000 is below \<open>2^53\<close> but beyond the last date, the document keeps its expiry
  20 instead of getting the new one, and the save is rejected.
\<close>

theorem extendExpiry_counterexample:
  "new_expiry None 0 (Some 100000001) = 8640000086400000 \<and>
   (8640000086400000 :: int) < 2 ^ 53 \<and>
   \<not> valid_date (new_expiry None 0 (Some 100000001)) \<and>
   expiresAt (extendExpiry_doc None 0 (Some 100000001)
               (example_file 11 1 ''uploads/1/a.txt'' 100 20)) = 20 \<and>
   expiresAt (extendExpiry_doc None 0 (Some 100000001)
               (example_file 11 1 ''uploads/1/a.txt'' 100 20)) \<noteq> 0 + 100000001 * DAY_MS \<and>
   extendExpiry None 0 (Some 100000001) example_store (example_file 11 1 ''uploads/1/a.txt'' 100 20)
     = Inl ValidationError"
  by (simp add: example_defs DAY_MS_def extendExpiry_doc_def extendExpiry_def new_expiry_def
      valid_date_def MAX_DATE_def Let_def)

text \<open>
  C3 (as the code has it). The query for due entries is \<^verbatim>\<open>expiresAt < now\<close>, strictly: the
  documents it returns are exactly the records whose expiry lies before the time of the
  query, each once, so a record expiring at that very instant is not due yet. No order is
  requested of the database, and none is stated here. The sweeper's own query is the same
  one: a run deletes as many records as the query returns.
\<close>

theorem getExpiredFiles_strict:
  "set (getExpiredFiles now st) = {f \<in> set (files st). expiresAt f < now} \<and>
   (\<forall>f \<in> set (files st). expiresAt f = now \<longrightarrow> f \<notin> set (getExpiredFiles now st)) \<and>
   (distinct (map file_id (files st)) \<longrightarrow> distinct (map file_id (getExpiredFiles now st))) \<and>
   deletedCount (snd (cleanupExpiredFiles now st)) = length (getExpiredFiles now st)"
proof -
  have "deletedCount (snd (cleanupExpiredFiles now st)) = length (getExpiredFiles now st)"
    by (simp add: cleanupExpiredFiles_def getExpiredFiles_def Let_def case_prod_beta
        sweep_counts)
  then show ?thesis
    by (auto simp: getExpiredFiles_def distinct_map_filter)
qed

theorem getExpiredFiles_strict_witness:
  "set (getExpiredFiles 30 example_store) =
     {example_file 11 1 ''uploads/1/a.txt'' 100 20, example_file 12 2 ''uploads/2/b.txt'' 50 5} \<and>
   example_file 13 1 ''uploads/1/c.txt'' 30 30 \<in> set (files example_store) \<and>
   expiresAt (example_file 13 1 ''uploads/1/c.txt'' 30 30) = 30 \<and>
   example_file 13 1 ''uploads/1/c.txt'' 30 30 \<notin> set (getExpiredFiles 30 example_store) \<and>
   distinct (map file_id (files example_store)) \<and>
   deletedCount (snd (cleanupExpiredFiles 30 example_store)) = 2"
  using getExpiredFiles_strict [of 30 example_store]
  by (auto simp add: example_defs getExpiredFiles_def)

text \<open>
  C3 as the specification words it fails on the example store at time 30: file 13
  expires at 30, which is \<open>\<le> 30\<close>, and is not among the entries returned.
\<close>

theorem dueEntries_counterexample:
  "example_file 13 1 ''uploads/1/c.txt'' 30 30 \<in> set (files example_store) \<and>
   expiresAt (example_file 13 1 ''uploads/1/c.txt'' 30 30) \<le> 30 \<and>
   example_file 13 1 ''uploads/1/c.txt'' 30 30 \<notin> set (getExpiredFiles 30 example_store)"
  by (simp add: example_defs getExpiredFiles_def)

section \<open>Reading content\<close>

text \<open>
  C9. \<^verbatim>\<open>getFile\<close> and \<^verbatim>\<open>getClip\<close> answer with one and the same 404 response whenever the
  caller owns no entry with the requested id, be it that no such entry exists or that it
  belongs to another account. Any other answer carries an entry of the caller's own.
\<close>

theorem get_not_found_uniform:
  "((\<forall>f \<in> set (files st). file_id f = fid \<longrightarrow> userId f \<noteq> fst ru) \<longrightarrow>
      getFile st ru fid = Failure NOT_FOUND FILE_NOT_FOUND) \<and>
   ((\<forall>c \<in> set (clips st). clip_id c = cid \<longrightarrow> clip_userId c \<noteq> fst ru) \<longrightarrow>
      getClip st ru cid = Failure NOT_FOUND CLIP_NOT_FOUND) \<and>
   (getFile st ru fid \<noteq> Failure NOT_FOUND FILE_NOT_FOUND \<longrightarrow>
      (\<exists>f \<in> set (files st). file_id f = fid \<and> userId f = fst ru \<and> getFile st ru fid = FileDetails f)) \<and>
   (getClip st ru cid \<noteq> Failure NOT_FOUND CLIP_NOT_FOUND \<longrightarrow>
      (\<exists>c \<in> set (clips st). clip_id c = cid \<and> clip_userId c = fst ru \<and> getClip st ru cid = ClipDetails c))"
  by (auto simp: getFile_def getClip_def split: option.splits dest!: find_Some_holds)

theorem get_not_found_uniform_witness:
  "getFile example_store (1, example_user 130 1000) 12 = Failure 404 ''File not found'' \<and>
   getFile example_store (1, example_user 130 1000) 99 = Failure 404 ''File not found'' \<and>
   getFile example_store (2, example_user 50 1000) 12 =
     FileDetails (example_file 12 2 ''uploads/2/b.txt'' 50 5) \<and>
   getClip example_store (1, example_user 130 1000) 21 = Failure 404 ''Clipboard item not found'' \<and>
   getClip example_store (1, example_user 130 1000) 99 = Failure 404 ''Clipboard item not found'' \<and>
   getClip example_store (2, example_user 50 1000) 21 = ClipDetails (example_clip 21 2 40)"
  using get_not_found_uniform [of example_store 12 "(1, example_user 130 1000)" 21]
    get_not_found_uniform [of example_store 99 "(1, example_user 130 1000)" 99]
    get_not_found_uniform [of example_store 12 "(2, example_user 50 1000)" 21]
  by (simp add: example_defs getFile_def getClip_def NOT_FOUND_def FILE_NOT_FOUND_def
      CLIP_NOT_FOUND_def)

section \<open>Admission control\<close>





section \<open>Deleting a file\<close>

lemma find_by_id:
  "distinct (map g xs) \<Longrightarrow> x \<in> set xs \<Longrightarrow> P x \<Longrightarrow> List.find (\<lambda>y. g y = g x \<and> P y) xs = Some x"
  by (induction xs) (auto simp: image_iff)

lemma find_None_no_match: "List.find P xs = None \<longleftrightarrow> (\<forall>x \<in> set xs. \<not> P x)"
  by (induction xs) auto

lemma filter_by_id:
  "distinct (map g xs) \<Longrightarrow> x \<in> set xs \<Longrightarrow> filter (\<lambda>y. g y = g x) xs = [x]"
proof (induction xs)
  case Nil
  then show ?case by simp
next
  case (Cons a xs)
  show ?case
  proof (cases "a = x")
    case True
    with Cons.prems have "\<forall>y \<in> set xs. g y \<noteq> g x" by (auto simp: image_iff)
    then have "filter (\<lambda>y. g y = g x) xs = []" by (simp add: filter_empty_conv)
    with True show ?thesis by simp
  next
    case False
    with Cons.prems have "x \<in> set xs" and "g a \<noteq> g x" by (auto simp: image_iff)
    with Cons show ?thesis by simp
  qed
qed

lemma file_deleteOne_files:
  "distinct (map file_id (files st)) \<Longrightarrow>
   files (file_deleteOne st f) = filter (\<lambda>g. file_id g \<noteq> file_id f) (files st)"
  by (simp add: file_deleteOne_def deleteOne_by_key)

lemma file_deleteOne_users:
  "users (file_deleteOne st f) = inc_storageUsed (userId f) (- int (fileSize f)) (users st)"
  by (simp add: file_deleteOne_def)

lemma file_deleteOne_disk: "disk (file_deleteOne st f) = disk st - {filePath f}"
  by (simp add: file_deleteOne_def unlink_quiet_minus)

lemma deleteFile_success:
  assumes "deleteFile st ru fid = (st1, FileDeleted freed used')"
  shows "\<exists>f \<in> set (files st). file_id f = fid \<and> userId f = fst ru \<and> fileSize f = freed \<and>
           st1 = file_deleteOne st f"
  using assms
  by (auto simp: deleteFile_def split: option.splits dest!: find_Some_holds)

text \<open>
  C7. Deleting a file twice: after a successful \<^verbatim>\<open>deleteFile\<close> the record is gone, so a
  second call with the same id finds nothing, answers 404 and leaves the store as it is.
  The owner's counter has been decremented by the file's size exactly once.
\<close>

theorem deleteFile_idempotent:
  assumes "distinct (map file_id (files st))"
    and "deleteFile st ru fid = (st1, FileDeleted freed used')"
    and "fst ru' = fst ru"
  shows "deleteFile st1 ru' fid = (st1, Failure NOT_FOUND FILE_NOT_FOUND) \<and>
         users st1 = inc_storageUsed (fst ru) (- int freed) (users st) \<and>
         users (fst (deleteFile st1 ru' fid)) = inc_storageUsed (fst ru) (- int freed) (users st) \<and>
         (\<exists>f \<in> set (files st). file_id f = fid \<and> userId f = fst ru \<and> fileSize f = freed)"
proof -
  from deleteFile_success [OF assms(2)] obtain f where
    f: "f \<in> set (files st)" "file_id f = fid" "userId f = fst ru" "fileSize f = freed"
      "st1 = file_deleteOne st f"
    by blast
  from assms(1) f have gone: "\<forall>g \<in> set (files st1). file_id g \<noteq> fid"
    by (simp add: file_deleteOne_files)
  then have "List.find (\<lambda>g. file_id g = fid \<and> userId g = fst ru') (files st1) = None"
    by (simp add: find_None_no_match)
  then have second: "deleteFile st1 ru' fid = (st1, Failure NOT_FOUND FILE_NOT_FOUND)"
    by (simp add: deleteFile_def)
  from f have once: "users st1 = inc_storageUsed (fst ru) (- int freed) (users st)"
    by (simp add: file_deleteOne_users)
  from second once f show ?thesis by auto
qed

theorem deleteFile_idempotent_witness:
  "distinct (map file_id (files example_store)) \<and>
   deleteFile example_store (1, example_user 130 1000) 11 =
     (file_deleteOne example_store (example_file 11 1 ''uploads/1/a.txt'' 100 20), FileDeleted 100 30) \<and>
   deleteFile (file_deleteOne example_store (example_file 11 1 ''uploads/1/a.txt'' 100 20))
      (1, example_user 30 1000) 11 =
     (file_deleteOne example_store (example_file 11 1 ''uploads/1/a.txt'' 100 20),
      Failure 404 ''File not found'') \<and>
   users (file_deleteOne example_store (example_file 11 1 ''uploads/1/a.txt'' 100 20)) 1 =
     Some (example_user 30 1000)"
proof -
  have d: "distinct (map file_id (files example_store))"
    by (simp add: example_defs)
  have first: "deleteFile example_store (1, example_user 130 1000) 11 =
     (file_deleteOne example_store (example_file 11 1 ''uploads/1/a.txt'' 100 20), FileDeleted 100 30)"
    by (simp add: example_defs deleteFile_def)
  have u: "users (file_deleteOne example_store (example_file 11 1 ''uploads/1/a.txt'' 100 20)) 1 =
     Some (example_user 30 1000)"
    by (simp add: example_defs file_deleteOne_def inc_storageUsed_def)
  from deleteFile_idempotent [OF d first, of "(1, example_user 30 1000)"] d first u
  show ?thesis by (simp add: NOT_FOUND_def FILE_NOT_FOUND_def)
qed

section \<open>The sweeper\<close>

lemma sweep_files_state:
  "distinct (map file_id (files st)) \<Longrightarrow>
   fst (sweep_files pop st fs m cnt freed) =
     st\<lparr>disk := disk st - filePath ` set fs,
        files := filter (\<lambda>g. file_id g \<notin> file_id ` set fs) (files st)\<rparr>"
proof (induction fs arbitrary: st m cnt freed)
  case Nil
  then show ?case by simp
next
  case (Cons f fs)
  define st' where "st' = st\<lparr>disk := unlink_quiet (filePath f) (disk st),
                  files := deleteOne (\<lambda>g. file_id g = file_id f) (files st)\<rparr>"
  from Cons.prems have fl: "files st' = filter (\<lambda>g. file_id g \<noteq> file_id f) (files st)"
    by (simp add: st'_def deleteOne_by_key)
  with Cons.prems have d': "distinct (map file_id (files st'))"
    by (simp add: distinct_map_filter)
  have dk: "disk st' - filePath ` set fs = disk st - filePath ` set (f # fs)"
    by (auto simp: st'_def unlink_quiet_minus)
  have fk: "filter (\<lambda>g. file_id g \<notin> file_id ` set fs) (files st') =
            filter (\<lambda>g. file_id g \<notin> file_id ` set (f # fs)) (files st)"
    by (simp add: fl)
  have "fst (sweep_files pop st (f # fs) m cnt freed) =
        st'\<lparr>disk := disk st' - filePath ` set fs,
            files := filter (\<lambda>g. file_id g \<notin> file_id ` set fs) (files st')\<rparr>"
    by (simp only: sweep_files.simps st'_def [symmetric] Cons.IH [OF d'])
  also have "\<dots> = st\<lparr>disk := disk st - filePath ` set (f # fs),
        files := filter (\<lambda>g. file_id g \<notin> file_id ` set (f # fs)) (files st)\<rparr>"
    by (simp only: dk fk) (simp add: st'_def)
  finally show ?case .
qed

lemma sweep_files_users: "users (fst (sweep_files pop st fs m cnt freed)) = users st"
  by (induction fs arbitrary: st m cnt freed) simp_all

lemma sweep_files_freed:
  "snd (snd (snd (sweep_files pop st fs m cnt freed))) = freed + sum_list (map fileSize fs)"
  by (induction fs arbitrary: st m cnt freed) simp_all

lemma get_or_zero_update:
  "get_or_zero (AList.update k v m) uid = (if uid = k then v else get_or_zero m uid)"
  by (simp add: get_or_zero_def update_conv')

lemma sweep_files_keys:
  "distinct (map fst m) \<Longrightarrow> distinct (map fst (fst (snd (sweep_files pop st fs m cnt freed))))"
  by (induction fs arbitrary: st m cnt freed) (simp_all add: distinct_update split: option.splits)

lemma sweep_files_map:
  "get_or_zero (fst (snd (sweep_files pop st fs m cnt freed))) uid =
     get_or_zero m uid + (if pop uid = None then 0 else owned_total uid fs)"
proof (induction fs arbitrary: st m cnt freed)
  case Nil
  then show ?case by (simp add: owned_total_Nil)
next
  case (Cons f fs)
  show ?case
    by (cases "pop (userId f)") (auto simp: Cons.IH get_or_zero_update owned_total_Cons)
qed

lemma apply_updates_lookup:
  "distinct (map fst m) \<Longrightarrow>
   apply_updates m us uid =
     map_option (\<lambda>u. u\<lparr>storageUsed := storageUsed u - int (get_or_zero m uid)\<rparr>) (us uid)"
proof (induction m arbitrary: us)
  case Nil
  then show ?case by (simp add: get_or_zero_def option.map_ident)
next
  case (Cons kv m)
  obtain k v where kv: "kv = (k, v)" by (cases kv)
  from Cons.prems kv have fresh: "map_of m k = None" and d: "distinct (map fst m)"
    by (auto simp: map_of_eq_None_iff)
  have "apply_updates (kv # m) us uid = apply_updates m (inc_storageUsed k (- int v) us) uid"
    using kv by simp
  also have "\<dots> = map_option (\<lambda>u. u\<lparr>storageUsed := storageUsed u - int (get_or_zero m uid)\<rparr>)
                     (inc_storageUsed k (- int v) us uid)"
    by (rule Cons.IH [OF d])
  also have "\<dots> = map_option (\<lambda>u. u\<lparr>storageUsed := storageUsed u - int (get_or_zero (kv # m) uid)\<rparr>)
                     (us uid)"
    using fresh kv
    by (cases "us k") (auto simp: inc_storageUsed_lookup get_or_zero_def)
  finally show ?case .
qed

lemma expired_ids:
  assumes "distinct (map file_id xs)"
  shows "filter (\<lambda>g. file_id g \<notin> file_id ` set (filter P xs)) xs = filter (\<lambda>g. \<not> P g) xs"
proof (rule filter_cong [OF refl])
  fix g assume g: "g \<in> set xs"
  show "(file_id g \<notin> file_id ` set (filter P xs)) = (\<not> P g)"
  proof
    assume "file_id g \<notin> file_id ` set (filter P xs)"
    with g show "\<not> P g" by auto
  next
    assume np: "\<not> P g"
    show "file_id g \<notin> file_id ` set (filter P xs)"
    proof
      assume "file_id g \<in> file_id ` set (filter P xs)"
      then obtain h where h: "h \<in> set xs" "P h" "file_id h = file_id g" by auto
      from assms g h have "h = g" by (simp add: distinct_map inj_on_def)
      with h np show False by simp
    qed
  qed
qed

lemma cleanupExpiredFiles_unfold:
  "cleanupExpiredFiles now st =
     (fst (sweep_files (users st) st (getExpiredFiles now st) [] 0 0)
        \<lparr>users := apply_updates (fst (snd (sweep_files (users st) st (getExpiredFiles now st) [] 0 0)))
                   (users (fst (sweep_files (users st) st (getExpiredFiles now st) [] 0 0)))\<rparr>,
      \<lparr>deletedCount = fst (snd (snd (sweep_files (users st) st (getExpiredFiles now st) [] 0 0))),
       freedSpace = snd (snd (snd (sweep_files (users st) st (getExpiredFiles now st) [] 0 0)))\<rparr>)"
  by (simp add: cleanupExpiredFiles_def getExpiredFiles_def Let_def split: prod.splits)

lemma cleanupExpiredFiles_files:
  "distinct (map file_id (files st)) \<Longrightarrow>
   files (fst (cleanupExpiredFiles now st)) = filter (\<lambda>f. \<not> expiresAt f < now) (files st)"
proof -
  assume d: "distinct (map file_id (files st))"
  then have "files (fst (cleanupExpiredFiles now st)) =
      filter (\<lambda>g. file_id g \<notin> file_id ` set (getExpiredFiles now st)) (files st)"
    by (simp add: cleanupExpiredFiles_unfold sweep_files_state)
  also have "\<dots> = filter (\<lambda>f. \<not> expiresAt f < now) (files st)"
    unfolding getExpiredFiles_def using d by (rule expired_ids)
  finally show ?thesis .
qed

lemma cleanupExpiredFiles_disk:
  "distinct (map file_id (files st)) \<Longrightarrow>
   disk (fst (cleanupExpiredFiles now st)) = disk st - filePath ` set (getExpiredFiles now st)"
  by (simp add: cleanupExpiredFiles_unfold sweep_files_state)

lemma cleanupExpiredFiles_users:
  "users (fst (cleanupExpiredFiles now st)) uid =
     map_option (\<lambda>u. u\<lparr>storageUsed := storageUsed u - int (owned_total uid (getExpiredFiles now st))\<rparr>)
       (users st uid)"
proof -
  let ?r = "sweep_files (users st) st (getExpiredFiles now st) [] 0 0"
  have d: "distinct (map fst (fst (snd ?r)))"
    by (rule sweep_files_keys) simp
  have g: "get_or_zero (fst (snd ?r)) uid =
           (if users st uid = None then 0 else owned_total uid (getExpiredFiles now st))"
  proof -
    have "get_or_zero [] uid = 0" by (simp add: get_or_zero_def)
    then show ?thesis by (simp add: sweep_files_map)
  qed
  have "users (fst (cleanupExpiredFiles now st)) uid = apply_updates (fst (snd ?r)) (users (fst ?r)) uid"
    by (simp add: cleanupExpiredFiles_unfold)
  also have "\<dots> = map_option (\<lambda>u. u\<lparr>storageUsed := storageUsed u - int (get_or_zero (fst (snd ?r)) uid)\<rparr>)
                     (users st uid)"
    by (simp only: apply_updates_lookup [OF d] sweep_files_users)
  also have "\<dots> = map_option (\<lambda>u. u\<lparr>storageUsed := storageUsed u - int (owned_total uid (getExpiredFiles now st))\<rparr>)
       (users st uid)"
    by (cases "users st uid") (simp_all add: g)
  finally show ?thesis .
qed

lemma cleanupExpiredFiles_result:
  "snd (cleanupExpiredFiles now st) =
     \<lparr>deletedCount = length (getExpiredFiles now st),
      freedSpace = sum_list (map fileSize (getExpiredFiles now st))\<rparr>"
  by (simp add: cleanupExpiredFiles_unfold sweep_counts sweep_files_freed)




lemma owned_total_single_out:
  assumes "distinct (map file_id xs)" and "f \<in> set xs"
  shows "owned_total uid xs =
           (if userId f = uid then fileSize f else 0) +
           owned_total uid (filter (\<lambda>g. file_id g \<noteq> file_id f) xs)"
proof -
  have "owned_total uid xs =
          owned_total uid (filter (\<lambda>g. file_id g = file_id f) xs) +
          owned_total uid (filter (\<lambda>g. \<not> file_id g = file_id f) xs)"
    by (rule owned_total_split)
  also have "filter (\<lambda>g. file_id g = file_id f) xs = [f]"
    using assms by (rule filter_by_id)
  finally show ?thesis by (simp add: owned_total_Cons owned_total_Nil)
qed



section \<open>Deleting a record whose payload is missing\<close>

text \<open>
  On the paths that go through the document hook of the file model, and in the sweeper,
  a file record whose payload is already missing on disk is deleted all the same. The
  user's delete and the multi-delete succeed, the record is gone and the owner's counter
  goes down by the file's size. When the record is past its expiry the sweeper removes it
  too, counts it in its report, and takes the file's size (with the sizes of the owner's
  other swept records) off the owner's counter.
\<close>

lemma hook_deletes_tolerate_missing_payload:
  assumes "distinct (map file_id (files st))"
    and "f \<in> set (files st)"
    and "filePath f \<notin> disk st"
    and "users st (userId f) = Some u"
  shows "deleteFile st (userId f, doc) (file_id f) =
           (file_deleteOne st f, FileDeleted (fileSize f) (storageUsed doc - int (fileSize f))) \<and>
    deleteMultipleFiles st (userId f, doc) [file_id f] =
           (file_deleteOne st f, FilesDeleted 1 (fileSize f) (storageUsed doc - int (fileSize f))) \<and>
    file_id f \<notin> file_id ` set (files (file_deleteOne st f)) \<and>
    users (file_deleteOne st f) (userId f) = Some (u\<lparr>storageUsed := storageUsed u - int (fileSize f)\<rparr>) \<and>
    disk (file_deleteOne st f) = disk st \<and>
    (expiresAt f < now \<longrightarrow>
       file_id f \<notin> file_id ` set (files (fst (cleanupExpiredFiles now st))) \<and>
       users (fst (cleanupExpiredFiles now st)) (userId f) =
         Some (u\<lparr>storageUsed := storageUsed u - int (fileSize f) -
                 int (owned_total (userId f)
                        (filter (\<lambda>g. file_id g \<noteq> file_id f) (getExpiredFiles now st)))\<rparr>) \<and>
       f \<in> set (getExpiredFiles now st) \<and>
       snd (cleanupExpiredFiles now st) =
         \<lparr>deletedCount = length (getExpiredFiles now st),
          freedSpace = sum_list (map fileSize (getExpiredFiles now st))\<rparr>)"
proof -
  from assms(1,2) have found:
    "List.find (\<lambda>g. file_id g = file_id f \<and> userId g = userId f) (files st) = Some f"
    using find_by_id [where g = file_id and P = "\<lambda>g. userId g = userId f" and x = f and xs = "files st"]
    by simp
  then have user_delete: "deleteFile st (userId f, doc) (file_id f) =
           (file_deleteOne st f, FileDeleted (fileSize f) (storageUsed doc - int (fileSize f)))"
    by (simp add: deleteFile_def)
  have "filter (\<lambda>g. file_id g \<in> set [file_id f] \<and> userId g = userId f) (files st) =
        filter (\<lambda>g. file_id g = file_id f) (files st)"
  proof (rule filter_cong [OF refl])
    fix g assume g: "g \<in> set (files st)"
    show "(file_id g \<in> set [file_id f] \<and> userId g = userId f) = (file_id g = file_id f)"
    proof
      assume "file_id g = file_id f"
      with assms(1,2) g have "g = f" by (simp add: distinct_map inj_on_def)
      then show "file_id g \<in> set [file_id f] \<and> userId g = userId f" by simp
    qed simp
  qed
  also have "\<dots> = [f]" using assms(1,2) by (rule filter_by_id)
  finally have multi: "deleteMultipleFiles st (userId f, doc) [file_id f] =
           (file_deleteOne st f, FilesDeleted 1 (fileSize f) (storageUsed doc - int (fileSize f)))"
    by (simp add: deleteMultipleFiles_def)
  from assms(1) have gone: "file_id f \<notin> file_id ` set (files (file_deleteOne st f))"
    by (auto simp: file_deleteOne_files)
  from assms(4) have counter:
    "users (file_deleteOne st f) (userId f) = Some (u\<lparr>storageUsed := storageUsed u - int (fileSize f)\<rparr>)"
    by (simp add: file_deleteOne_users inc_storageUsed_lookup)
  from assms(3) have same_disk: "disk (file_deleteOne st f) = disk st"
    by (simp add: file_deleteOne_disk)
  have sweep: "file_id f \<notin> file_id ` set (files (fst (cleanupExpiredFiles now st))) \<and>
       users (fst (cleanupExpiredFiles now st)) (userId f) =
         Some (u\<lparr>storageUsed := storageUsed u - int (fileSize f) -
                 int (owned_total (userId f)
                        (filter (\<lambda>g. file_id g \<noteq> file_id f) (getExpiredFiles now st)))\<rparr>) \<and>
       f \<in> set (getExpiredFiles now st)"
    if ex: "expiresAt f < now"
  proof -
    from ex assms(2) have mem: "f \<in> set (getExpiredFiles now st)"
      by (simp add: getExpiredFiles_def)
    from assms(1) have dex: "distinct (map file_id (getExpiredFiles now st))"
      by (simp add: getExpiredFiles_def distinct_map_filter)
    have removed: "file_id f \<notin> file_id ` set (files (fst (cleanupExpiredFiles now st)))"
    proof
      assume "file_id f \<in> file_id ` set (files (fst (cleanupExpiredFiles now st)))"
      then obtain g where g: "g \<in> set (files st)" "\<not> expiresAt g < now" "file_id g = file_id f"
        by (auto simp: cleanupExpiredFiles_files [OF assms(1)])
      from assms(1,2) g have "g = f" by (simp add: distinct_map inj_on_def)
      with g ex show False by simp
    qed
    from owned_total_single_out [OF dex mem, of "userId f"] assms(4)
    have "users (fst (cleanupExpiredFiles now st)) (userId f) =
         Some (u\<lparr>storageUsed := storageUsed u - int (fileSize f) -
                 int (owned_total (userId f)
                        (filter (\<lambda>g. file_id g \<noteq> file_id f) (getExpiredFiles now st)))\<rparr>)"
      by (simp add: cleanupExpiredFiles_users)
    with mem removed show ?thesis by simp
  qed
  from user_delete multi gone counter same_disk sweep show ?thesis
    by (simp add: cleanupExpiredFiles_result)
qed

text \<open>
  C8 on the folder path. In \<open>folder_store\<close> account 2 has 50 bytes counted for file 12,
  which lies in folder 31 and whose payload is missing on disk. Deleting the file by the
  user's delete, by the multi-delete or by the sweeper removes the record and brings the
  counter to 0. Deleting folder 31 removes the same record through \<^verbatim>\<open>File.deleteMany\<close>,
  which runs no hook: the request succeeds, the record is gone, and the counter still
  says 50.
\<close>

theorem folder_cascade_skips_the_ledger:
  "filePath ((example_file 12 2 ''uploads/2/b.txt'' 50 5)\<lparr>folderId := Some 31\<rparr>) \<notin> disk folder_store \<and>
   users folder_store 2 = Some (example_user 50 1000) \<and>
   files (fst (deleteFile folder_store (2, example_user 50 1000) 12)) = [] \<and>
   users (fst (deleteFile folder_store (2, example_user 50 1000) 12)) 2 = Some (example_user 0 1000) \<and>
   files (fst (deleteMultipleFiles folder_store (2, example_user 50 1000) [12])) = [] \<and>
   users (fst (deleteMultipleFiles folder_store (2, example_user 50 1000) [12])) 2
     = Some (example_user 0 1000) \<and>
   files (fst (cleanupExpiredFiles 25 folder_store)) = [] \<and>
   users (fst (cleanupExpiredFiles 25 folder_store)) 2 = Some (example_user 0 1000) \<and>
   map_option snd (deleteFolder 2 folder_store (2, example_user 50 1000) 31 False) = Some FolderDeleted \<and>
   map_option (\<lambda>r. files (fst r)) (deleteFolder 2 folder_store (2, example_user 50 1000) 31 False)
     = Some [] \<and>
   map_option (\<lambda>r. users (fst r) 2) (deleteFolder 2 folder_store (2, example_user 50 1000) 31 False)
     = Some (Some (example_user 50 1000))"
  by (simp add: example_defs folder_store_def deleteFile_def deleteMultipleFiles_def
      file_deleteOne_def inc_storageUsed_def unlink_quiet_def unlink_def cleanupExpiredFiles_def
      get_or_zero_def deleteFolder_def Let_def numeral_2_eq_2)

section \<open>Uploading\<close>

lemma File_create_effect:
  assumes "File_create st (new_file env now uid fid up) = Inr (st', doc)"
  shows "users st' = inc_storageUsed uid (int (up_size up)) (users st) \<and>
         files st' = files st @ [doc] \<and> userId doc = uid \<and> fileSize doc = up_size up \<and>
         file_id doc = nextId st \<and> nextId st' = Suc (nextId st) \<and>
         disk st' = disk st \<and> folders st' = folders st \<and> clips st' = clips st"
  using assms
  by (auto simp: File_create_def new_file_def post_save_def Let_def split: if_splits)

lemma create_records_effect:
  "\<exists>n news. n \<le> length ups \<and>
     users (store_after (create_records env now uid fid st ups acc)) =
       inc_storageUsed uid (int (sum_list (map up_size (take n ups)))) (users st) \<and>
     files (store_after (create_records env now uid fid st ups acc)) = files st @ news \<and>
     map fileSize news = map up_size (take n ups) \<and>
     list_all (\<lambda>d. userId d = uid) news \<and>
     map file_id news = [nextId st ..< nextId st + n] \<and>
     nextId (store_after (create_records env now uid fid st ups acc)) = nextId st + n \<and>
     disk (store_after (create_records env now uid fid st ups acc)) = disk st \<and>
     folders (store_after (create_records env now uid fid st ups acc)) = folders st \<and>
     clips (store_after (create_records env now uid fid st ups acc)) = clips st \<and>
     (\<forall>s docs. create_records env now uid fid st ups acc = Inr (s, docs) \<longrightarrow>
        n = length ups \<and> docs = acc @ news)"
proof (induction ups arbitrary: st acc)
  case Nil
  show ?case
    by (rule exI [of _ 0], rule exI [of _ "[]"]) (simp add: store_after_def inc_storageUsed_zero)
next
  case (Cons up ups)
  show ?case
  proof (cases "File_create st (new_file env now uid fid up)")
    case (Inl e)
    then show ?thesis
      by (intro exI [of _ 0] exI [of _ "[]"]) (simp add: store_after_def inc_storageUsed_zero)
  next
    case (Inr p)
    obtain st' doc where p: "p = (st', doc)" by (cases p)
    note eff = File_create_effect [OF Inr [unfolded p]]
    from Cons.IH [of st' "acc @ [doc]"] obtain n news where
      IH: "n \<le> length ups"
        "users (store_after (create_records env now uid fid st' ups (acc @ [doc]))) =
           inc_storageUsed uid (int (sum_list (map up_size (take n ups)))) (users st')"
        "files (store_after (create_records env now uid fid st' ups (acc @ [doc]))) = files st' @ news"
        "map fileSize news = map up_size (take n ups)"
        "list_all (\<lambda>d. userId d = uid) news"
        "map file_id news = [nextId st' ..< nextId st' + n]"
        "nextId (store_after (create_records env now uid fid st' ups (acc @ [doc]))) = nextId st' + n"
        "disk (store_after (create_records env now uid fid st' ups (acc @ [doc]))) = disk st'"
        "folders (store_after (create_records env now uid fid st' ups (acc @ [doc]))) = folders st'"
        "clips (store_after (create_records env now uid fid st' ups (acc @ [doc]))) = clips st'"
        "\<forall>s docs. create_records env now uid fid st' ups (acc @ [doc]) = Inr (s, docs) \<longrightarrow>
           n = length ups \<and> docs = acc @ [doc] @ news"
      by auto
    have rec: "create_records env now uid fid st (up # ups) acc =
               create_records env now uid fid st' ups (acc @ [doc])"
      using Inr p by simp
    have ids: "[nextId st ..< nextId st + Suc n] = nextId st # [Suc (nextId st) ..< Suc (nextId st) + n]"
      by (simp add: upt_rec)
    show ?thesis
      apply (rule exI [of _ "Suc n"])
      apply (rule exI [of _ "doc # news"])
      using IH eff ids
      apply (simp only: rec)
      apply (simp add: inc_storageUsed_twice)
      done
  qed
qed


lemma uploadFiles_success:
  assumes "uploadFiles env now st ru req = (st', FilesUploaded docs n totalSize used' lim')"
  shows "request_files req \<noteq> [] \<and>
         hasStorageSpace (snd ru) (int (sum_list (map up_size (request_files req)))) \<and>
         totalSize = sum_list (map up_size (request_files req)) \<and> n = length docs \<and>
         (\<exists>st1 u'. create_records env now (fst ru) (body_folderId req) st (request_files req) [] =
                     Inr (st1, docs) \<and>
                   updateStorage st1 ru (int totalSize) = Inr (st', u'))"
  using assms
  by (auto simp: uploadFiles_def request_files_def Let_def
      split: option.splits if_splits sum.splits prod.splits)

lemma updateStorage_effect:
  assumes "updateStorage st1 ru bytes = Inr (st', u')"
  shows "\<exists>d. users st1 (fst ru) = Some d \<and>
           users st' =
             (if max 0 (storageUsed (snd ru) + bytes) = storageUsed (snd ru) then users st1
              else (users st1)(fst ru \<mapsto> d\<lparr>storageUsed := max 0 (storageUsed (snd ru) + bytes)\<rparr>)) \<and>
           files st' = files st1 \<and> nextId st' = nextId st1 \<and> disk st' = disk st1 \<and>
           folders st' = folders st1 \<and> clips st' = clips st1"
  using assms
  by (auto simp: updateStorage_def Let_def split: option.splits if_splits)

lemmas eval_defs =
  request_files_def uploadFiles_def hasStorageSpace_def File_create_def new_file_def
  validates_def trim_def is_space_def is_space2_def is_space3_def valid_date_def MAX_DATE_def
  post_save_def inc_storageUsed_def updateStorage_def
  checkStorageSpace_def
  EXPIRY_DAYS_def DAY_MS_def Let_def protect_def deleteFile_def file_deleteOne_def
  deleteMultipleFiles_def unlink_quiet_def unlink_def

text \<open>
  C2 (as the code has it). After a successful upload of a batch of total size \<open>S\<close> the
  persisted counter is \<open>max 0 (r + S)\<close>, where \<open>r\<close> is the usage in the request document
  that authentication loaded; only when that value is \<open>r\<close> itself is nothing written, and
  the counter stays where the post-save hooks left it, at the persisted usage \<open>u\<close> plus
  \<open>S\<close>. So when the request document is the persisted one (\<open>r = u\<close>) and \<open>u + S\<close> is not
  negative, the persisted counter is exactly \<open>u + S\<close>: the hook has added each file's size
  once, and the \<^verbatim>\<open>$set\<close> of \<^verbatim>\<open>updateStorage\<close> writes the same number again. One record per
  uploaded file has been appended, and no other account changes.
\<close>

theorem upload_counts_once:
  assumes "uploadFiles env now st ru req = (st', FilesUploaded docs n totalSize used' lim')"
  shows "totalSize = sum_list (map up_size (request_files req)) \<and>
         map fileSize docs = map up_size (request_files req) \<and>
         files st' = files st @ docs \<and>
         (\<exists>d. users st (fst ru) = Some d \<and>
              users st' (fst ru) =
                Some (d\<lparr>storageUsed :=
                          (if max 0 (storageUsed (snd ru) + int totalSize) = storageUsed (snd ru)
                           then storageUsed d + int totalSize
                           else max 0 (storageUsed (snd ru) + int totalSize))\<rparr>)) \<and>
         (users st (fst ru) = Some (snd ru) \<and> 0 \<le> storageUsed (snd ru) + int totalSize \<longrightarrow>
            users st' (fst ru) =
              Some ((snd ru)\<lparr>storageUsed := storageUsed (snd ru) + int totalSize\<rparr>)) \<and>
         (\<forall>k. k \<noteq> fst ru \<longrightarrow> users st' k = users st k)"
proof -
  let ?fs = "request_files req"
  let ?S = "sum_list (map up_size ?fs)"
  let ?v = "max 0 (storageUsed (snd ru) + int totalSize)"
  from uploadFiles_success [OF assms] obtain st1 u' where
    tot: "totalSize = ?S"
    and cr: "create_records env now (fst ru) (body_folderId req) st ?fs [] = Inr (st1, docs)"
    and us: "updateStorage st1 ru (int totalSize) = Inr (st', u')"
    by blast
  from create_records_effect [of ?fs env now "fst ru" "body_folderId req" st "[]"] cr
  have u1: "users st1 = inc_storageUsed (fst ru) (int ?S) (users st)"
    and f1: "files st1 = files st @ docs"
    and sz: "map fileSize docs = map up_size ?fs"
    by (auto simp: store_after_def)
  from u1 have others1: "\<forall>k. k \<noteq> fst ru \<longrightarrow> users st1 k = users st k"
    by (simp add: inc_storageUsed_lookup)
  from updateStorage_effect [OF us] obtain d1 where
    d1: "users st1 (fst ru) = Some d1"
    and u2: "users st' =
             (if ?v = storageUsed (snd ru) then users st1
              else (users st1)(fst ru \<mapsto> d1\<lparr>storageUsed := ?v\<rparr>))"
    and f2: "files st' = files st1"
    by blast
  from d1 u1 obtain d where d: "users st (fst ru) = Some d"
    and dd: "d1 = d\<lparr>storageUsed := storageUsed d + int ?S\<rparr>"
    by (auto simp: inc_storageUsed_lookup)
  from u2 d1 dd tot
  have mine: "users st' (fst ru) =
      Some (d\<lparr>storageUsed := (if ?v = storageUsed (snd ru) then storageUsed d + int totalSize else ?v)\<rparr>)"
    by (simp split: if_splits)
  have current: "users st' (fst ru) = Some ((snd ru)\<lparr>storageUsed := storageUsed (snd ru) + int totalSize\<rparr>)"
    if "users st (fst ru) = Some (snd ru)" and "0 \<le> storageUsed (snd ru) + int totalSize"
  proof -
    from that(1) d have "d = snd ru" by simp
    with mine that(2) show ?thesis by (simp split: if_splits)
  qed
  from u2 others1 have others2: "\<forall>k. k \<noteq> fst ru \<longrightarrow> users st' k = users st k"
    by (simp split: if_splits)
  from mine d current others2 tot sz f1 f2 show ?thesis by auto
qed

theorem upload_counts_once_witness:
  "users empty_store 1 = Some (example_user 0 1000) \<and>
   snd (uploadFiles None 0 empty_store (1, example_user 0 1000)
          (example_request [example_upload ''uploads/1/x.bin'' 100, example_upload ''uploads/1/y.bin'' 50])) =
     FilesUploaded
       [\<lparr>file_id = 2, userId = 1, originalName = ''report.pdf'', fileName = ''uploads/1/x.bin'',
         filePath = ''uploads/1/x.bin'', fileSize = 100, mimeType = ''application/pdf'',
         extension = ''.pdf'', folderId = None, expiresAt = 604800000\<rparr>,
        \<lparr>file_id = 3, userId = 1, originalName = ''report.pdf'', fileName = ''uploads/1/y.bin'',
         filePath = ''uploads/1/y.bin'', fileSize = 50, mimeType = ''application/pdf'',
         extension = ''.pdf'', folderId = None, expiresAt = 604800000\<rparr>]
       2 150 300 1000 \<and>
   users (fst (uploadFiles None 0 empty_store (1, example_user 0 1000)
          (example_request [example_upload ''uploads/1/x.bin'' 100, example_upload ''uploads/1/y.bin'' 50]))) 1 =
     Some (example_user 150 1000)"
proof -
  let ?req = "example_request [example_upload ''uploads/1/x.bin'' 100, example_upload ''uploads/1/y.bin'' 50]"
  let ?ru = "(1, example_user 0 1000)"
  let ?docs = "[\<lparr>file_id = 2, userId = 1, originalName = ''report.pdf'', fileName = ''uploads/1/x.bin'',
         filePath = ''uploads/1/x.bin'', fileSize = 100, mimeType = ''application/pdf'',
         extension = ''.pdf'', folderId = None, expiresAt = 604800000\<rparr>,
        \<lparr>file_id = 3, userId = 1, originalName = ''report.pdf'', fileName = ''uploads/1/y.bin'',
         filePath = ''uploads/1/y.bin'', fileSize = 50, mimeType = ''application/pdf'',
         extension = ''.pdf'', folderId = None, expiresAt = 604800000\<rparr>]"
  have u: "users empty_store (fst ?ru) = Some (snd ?ru)"
    by (simp add: example_defs)
  have r: "snd (uploadFiles None 0 empty_store ?ru ?req) = FilesUploaded ?docs 2 150 300 1000"
    by (simp add: example_defs eval_defs)
  then have "uploadFiles None 0 empty_store ?ru ?req =
      (fst (uploadFiles None 0 empty_store ?ru ?req), FilesUploaded ?docs 2 150 300 1000)"
    by (simp add: prod_eq_iff)
  from upload_counts_once [OF this] r u show ?thesis
    by (simp add: example_defs)
qed

text \<open>
  C2 as the specification words it, for every successful upload, fails in two ways. With
  a request document that is no longer the persisted one: the account has 0 bytes used,
  the request was authenticated when it had 100, it uploads 50 bytes with success, and the
  counter persisted is 150, not 0 + 50. With a counter that is negative: usage -50, an
  upload of 20 bytes with success, and the counter persisted is 0, not -30.
\<close>

theorem upload_counts_once_counterexample:
  "users empty_store 1 = Some (example_user 0 1000) \<and>
   snd (uploadFiles None 0 empty_store (1, example_user 100 1000)
          (example_request [example_upload ''uploads/1/x.bin'' 50])) =
     FilesUploaded
       [\<lparr>file_id = 2, userId = 1, originalName = ''report.pdf'', fileName = ''uploads/1/x.bin'',
         filePath = ''uploads/1/x.bin'', fileSize = 50, mimeType = ''application/pdf'',
         extension = ''.pdf'', folderId = None, expiresAt = 604800000\<rparr>]
       1 50 200 1000 \<and>
   users (fst (uploadFiles None 0 empty_store (1, example_user 100 1000)
          (example_request [example_upload ''uploads/1/x.bin'' 50]))) 1 = Some (example_user 150 1000) \<and>
   users (empty_store\<lparr>users := [1 \<mapsto> example_user (- 50) 1000]\<rparr>) 1 = Some (example_user (- 50) 1000) \<and>
   snd (uploadFiles None 0 (empty_store\<lparr>users := [1 \<mapsto> example_user (- 50) 1000]\<rparr>)
          (1, example_user (- 50) 1000) (example_request [example_upload ''uploads/1/x.bin'' 20])) =
     FilesUploaded
       [\<lparr>file_id = 2, userId = 1, originalName = ''report.pdf'', fileName = ''uploads/1/x.bin'',
         filePath = ''uploads/1/x.bin'', fileSize = 20, mimeType = ''application/pdf'',
         extension = ''.pdf'', folderId = None, expiresAt = 604800000\<rparr>]
       1 20 20 1000 \<and>
   users (fst (uploadFiles None 0 (empty_store\<lparr>users := [1 \<mapsto> example_user (- 50) 1000]\<rparr>)
          (1, example_user (- 50) 1000) (example_request [example_upload ''uploads/1/x.bin'' 20]))) 1
     = Some (example_user 0 1000)"
  by (simp add: example_defs eval_defs)

section \<open>Commits to the counter\<close>

text \<open>
  C4 on the delete paths. From a store whose counter (50) is below the size of a record it
  counts (100), each delete path applies \<^verbatim>\<open>$inc\<close> as it is and leaves a negative counter:
  the user's delete and the multi-delete give -50, both cleanup jobs (two records, 150
  bytes) give -100. \<^verbatim>\<open>updateStorage\<close>, called with the same negative delta on the same
  store, clamps to 0.
\<close>

theorem delete_paths_do_not_clamp:
  "map_option storageUsed (users (fst (deleteFile drift_store (1, example_user 50 1000) 2)) 1) = Some (- 50) \<and>
   map_option storageUsed (users (fst (deleteMultipleFiles drift_store (1, example_user 50 1000) [2])) 1)
     = Some (- 50) \<and>
   map_option storageUsed (users (fst (cleanupExpiredFiles 25 drift_store)) 1) = Some (- 100) \<and>
   map_option storageUsed (users (fst (File_cleanupExpiredFiles 25 drift_store)) 1) = Some (- 100) \<and>
   map_option (\<lambda>s. storageUsed (snd s)) (case updateStorage drift_store (1, example_user 50 1000) (- 100) of
       Inl e \<Rightarrow> None | Inr s \<Rightarrow> Some s) = Some 0 \<and>
   map_option (\<lambda>s. map_option storageUsed (users (fst s) 1))
      (case updateStorage drift_store (1, example_user 50 1000) (- 100) of
       Inl e \<Rightarrow> None | Inr s \<Rightarrow> Some s) = Some (Some 0)"
  by (simp add: example_defs drift_store_def eval_defs cleanupExpiredFiles_def
      File_cleanupExpiredFiles_def getExpiredFiles_def get_or_zero_def)

text \<open>
  How such a store comes about when two upload requests of one account overlap: request 1
  is authenticated on the empty store (its request document says 0 bytes used), request 2
  is authenticated, uploads 100 bytes and completes, then the body of request 1 arrives
  with a 50 byte file. Its \<^verbatim>\<open>$set\<close> writes 0 + 50 over the counter, which now counts 50
  bytes for 150 bytes of records.
\<close>

lemma drift_store_arises:
  "users (store (run None (idle empty_store)
      [Authenticate 1 1, Authenticate 2 1,
       UploadBody 2 300 (example_request [example_upload ''uploads/1/g.bin'' 100]) 0,
       UploadBody 1 300 (example_request [example_upload ''uploads/1/h.bin'' 50]) 0])) 1
     = users drift_store 1 \<and>
   map (\<lambda>f. (file_id f, userId f, fileSize f)) (files (store (run None (idle empty_store)
      [Authenticate 1 1, Authenticate 2 1,
       UploadBody 2 300 (example_request [example_upload ''uploads/1/g.bin'' 100]) 0,
       UploadBody 1 300 (example_request [example_upload ''uploads/1/h.bin'' 50]) 0])))
     = map (\<lambda>f. (file_id f, userId f, fileSize f)) (files drift_store)"
  by (simp add: run_def idle_def example_defs drift_store_def eval_defs)

section \<open>The storage invariant\<close>
























end
